theory Spec2Isabelle
  imports Main
begin

section \<open>Data model of helpers/graph/group.go\<close>

text \<open>
  Go's \<^verbatim>\<open>error\<close> values are built with \<^verbatim>\<open>fmt.Errorf\<close>. Each call site of
  \<^verbatim>\<open>fmt.Errorf\<close> in group.go is one constructor below; its arguments are the
  arguments of the format string, in the order of the source. \<open>Remote\<close> is an error
  value handed back by the graphrbac SDK.
\<close>

datatype error =
    Remote string
  | UnableToParseMemberID error
  | ListingGroupsForFilter string error
  | NilValuesForGroups string
  | FoundNoGroups string
  | FoundMultipleGroups string
  | NilDisplayNameForGroups string
  | DisplayNameDoesNotMatch string string string
  | DuringPagination error
  | ListingGroupMembers string error
  | GettingMemberIDs string error
  | AddingGroupMember string string error
  | WaitingForGroupMembership error
  | WhileAddingMembers string error
  | AddingGroupOwner string string error
  | UnableToListGroups string error
  | ParseError string
  | PollTimeout string

text \<open>
  A Go function either returns its value with a nil error, returns a non-nil error, or
  panics (a nil pointer dereference).
\<close>

datatype 'a result = Returns 'a | Fails error | Panics

text \<open>The SDK structs; a \<^verbatim>\<open>*string\<close> field is a \<open>string option\<close>.\<close>

record ADGroup =
  DisplayName :: "string option"
  ObjectID :: "string option"

record User =
  ObjectID :: "string option"

record ServicePrincipal =
  ObjectID :: "string option"

text \<open>
  A \<^verbatim>\<open>BasicDirectoryObject\<close> is known to group.go only through its three projections,
  each of which yields a pointer that may be nil.
\<close>

record DirectoryObject =
  AsUser :: "User option"
  AsADGroup :: "ADGroup option"
  AsServicePrincipal :: "ServicePrincipal option"

text \<open>
  A \<^verbatim>\<open>DirectoryObjectListResultIterator\<close> as the loop of
  \<^verbatim>\<open>DirectoryObjectListToIDs\<close> sees it: the values in order, each with the outcome of the
  \<^verbatim>\<open>NextWithContext\<close> call made at that position (\<open>None\<close> is a nil error).
  \<^verbatim>\<open>NotDone()\<close> is false on the empty list.
\<close>

type_synonym iterator = "(DirectoryObject \<times> error option) list"

subsection \<open>The directory service and the passing of time\<close>

text \<open>
  The graphrbac client is an external collaborator: each method is a transition on the
  state \<open>'s\<close> of the remote directory. \<open>elapse\<close> is what \<^verbatim>\<open>time.Sleep\<close> does to that
  state. The context argument (cancellation) and \<^verbatim>\<open>log.Printf\<close> are left out.
\<close>

record 's GroupsClient =
  TenantID :: string
  AddMember :: "string \<Rightarrow> string \<Rightarrow> 's \<Rightarrow> error option \<times> 's"
  AddOwner :: "string \<Rightarrow> string \<Rightarrow> 's \<Rightarrow> error option \<times> 's"
  GetGroupMembersComplete :: "string \<Rightarrow> 's \<Rightarrow> (error + iterator) \<times> 's"
  List :: "string \<Rightarrow> 's \<Rightarrow> (error + ADGroup list) \<times> 's"
  ListComplete :: "string \<Rightarrow> 's \<Rightarrow> (error + ADGroup list option) \<times> 's"
  elapse :: "nat \<Rightarrow> 's \<Rightarrow> 's"

text \<open>
  The world is the state of the directory together with the trace of what was done to it:
  every call of a client method and every sleep, in order. A call of \<^verbatim>\<open>AddMember\<close> or
  \<^verbatim>\<open>AddOwner\<close> is recorded with the error it gave back.
\<close>

datatype event =
    EvAddMember string string "error option"
  | EvAddOwner string string "error option"
  | EvGetGroupMembersComplete string
  | EvList string
  | EvListComplete string
  | EvSleep nat

record 's world =
  remote :: 's
  events :: "event list"

definition call_AddMember ::
  "'s GroupsClient \<Rightarrow> string \<Rightarrow> string \<Rightarrow> 's world \<Rightarrow> error option \<times> 's world" where
  "call_AddMember client groupId url w =
     (case AddMember client groupId url (remote w) of
        (err, s) \<Rightarrow> (err, \<lparr>remote = s, events = events w @ [EvAddMember groupId url err]\<rparr>))"

definition call_AddOwner ::
  "'s GroupsClient \<Rightarrow> string \<Rightarrow> string \<Rightarrow> 's world \<Rightarrow> error option \<times> 's world" where
  "call_AddOwner client groupId url w =
     (case AddOwner client groupId url (remote w) of
        (err, s) \<Rightarrow> (err, \<lparr>remote = s, events = events w @ [EvAddOwner groupId url err]\<rparr>))"

definition call_GetGroupMembersComplete ::
  "'s GroupsClient \<Rightarrow> string \<Rightarrow> 's world \<Rightarrow> (error + iterator) \<times> 's world" where
  "call_GetGroupMembersComplete client groupId w =
     (case GetGroupMembersComplete client groupId (remote w) of
        (r, s) \<Rightarrow> (r, \<lparr>remote = s, events = events w @ [EvGetGroupMembersComplete groupId]\<rparr>))"

definition call_List ::
  "'s GroupsClient \<Rightarrow> string \<Rightarrow> 's world \<Rightarrow> (error + ADGroup list) \<times> 's world" where
  "call_List client nameFilter w =
     (case List client nameFilter (remote w) of
        (r, s) \<Rightarrow> (r, \<lparr>remote = s, events = events w @ [EvList nameFilter]\<rparr>))"

definition call_ListComplete ::
  "'s GroupsClient \<Rightarrow> string \<Rightarrow> 's world \<Rightarrow> (error + ADGroup list option) \<times> 's world" where
  "call_ListComplete client flt w =
     (case ListComplete client flt (remote w) of
        (r, s) \<Rightarrow> (r, \<lparr>remote = s, events = events w @ [EvListComplete flt]\<rparr>))"

definition sleep :: "'s GroupsClient \<Rightarrow> nat \<Rightarrow> 's world \<Rightarrow> 's world" where
  "sleep client secs w =
     \<lparr>remote = elapse client secs (remote w), events = events w @ [EvSleep secs]\<rparr>"

definition directoryObjectURL :: "string \<Rightarrow> string \<Rightarrow> string" where
  "directoryObjectURL tenant objectId =
     ''https://graph.windows.net/'' @ tenant @ ''/directoryObjects/'' @ objectId"

section \<open>The identifier codec\<close>

text \<open>
  \<^verbatim>\<open>ObjectSubResourceId\<close>, \<^verbatim>\<open>ObjectSubResourceIdFrom\<close>, its \<^verbatim>\<open>String\<close> method and
  \<^verbatim>\<open>ParseObjectSubResourceId\<close> belong to the package but not to group.go, which reads
  only the fields \<^verbatim>\<open>objectId\<close> and \<^verbatim>\<open>subId\<close>.
\<close>

record ObjectSubResourceId =
  objectId :: string
  subId :: string
  kind :: string

text \<open>\<^verbatim>\<open>strings.Split\<close> for a separator of one character.\<close>

fun split_on :: "char \<Rightarrow> string \<Rightarrow> string list" where
  "split_on sep [] = [[]]"
| "split_on sep (c # cs) =
     (if c = sep then [] # split_on sep cs
      else (case split_on sep cs of
              p # ps \<Rightarrow> (c # p) # ps
            | [] \<Rightarrow> [[c]]))"

text \<open>
  Modelled from the spec: \<^verbatim>\<open>ObjectSubResourceIdFrom\<close> is missing from the sources. The
  spec has the composite identifier hold the object id, the kind and the sub id.
\<close>

definition ObjectSubResourceIdFrom :: "string \<Rightarrow> string \<Rightarrow> string \<Rightarrow> ObjectSubResourceId" where
  "ObjectSubResourceIdFrom objectId' kind' subId' =
     \<lparr>objectId = objectId', subId = subId', kind = kind'\<rparr>"

text \<open>
  Modelled from the spec: the \<^verbatim>\<open>String\<close> method of \<^verbatim>\<open>ObjectSubResourceId\<close> is missing
  from the sources. The spec describes a three-part string that embeds the group id, the
  kind and the member id positionally; it does not name the separator, which is the
  parameter \<open>sep\<close>.
\<close>

definition ObjectSubResourceId_String :: "char \<Rightarrow> ObjectSubResourceId \<Rightarrow> string" where
  "ObjectSubResourceId_String sep id' = objectId id' @ [sep] @ kind id' @ [sep] @ subId id'"

text \<open>
  Modelled from the spec: \<^verbatim>\<open>ParseObjectSubResourceId\<close> is missing from the sources. The
  spec has it parse the composite string into its three parts, require both component
  ids to be non-empty, require the kind to be the expected one, and reject everything else
  with a parse error that includes the original string.
\<close>

definition ParseObjectSubResourceId ::
  "char \<Rightarrow> string \<Rightarrow> string \<Rightarrow> ObjectSubResourceId result" where
  "ParseObjectSubResourceId sep idString expectedKind =
     (case split_on sep idString of
        [a, k, b] \<Rightarrow>
          (if a = [] \<or> b = [] then Fails (ParseError idString)
           else if k \<noteq> expectedKind then Fails (ParseError idString)
           else Returns \<lparr>objectId = a, subId = b, kind = k\<rparr>)
      | _ \<Rightarrow> Fails (ParseError idString))"

text \<open>
  Modelled from the spec: a valid identifier is non-empty and well-formed; well-formed is
  taken as free of the separator.
\<close>

definition valid_identifier :: "char \<Rightarrow> string \<Rightarrow> bool" where
  "valid_identifier sep s = (s \<noteq> [] \<and> sep \<notin> set s)"

record GroupMemberId =
  SubResourceId :: ObjectSubResourceId
  GroupId :: string
  MemberId :: string

definition GroupMemberIdFrom :: "string \<Rightarrow> string \<Rightarrow> GroupMemberId" where
  "GroupMemberIdFrom groupId memberId =
     \<lparr>SubResourceId = ObjectSubResourceIdFrom groupId ''member'' memberId,
      GroupId = groupId,
      MemberId = memberId\<rparr>"

definition ParseGroupMemberId :: "char \<Rightarrow> string \<Rightarrow> GroupMemberId result" where
  "ParseGroupMemberId sep idString =
     (case ParseObjectSubResourceId sep idString ''member'' of
        Fails err \<Rightarrow> Fails (UnableToParseMemberID err)
      | Panics \<Rightarrow> Panics
      | Returns id' \<Rightarrow>
          Returns \<lparr>SubResourceId = id', GroupId = objectId id', MemberId = subId id'\<rparr>)"

section \<open>Looking a group up by its display name\<close>

definition displayNameFilter :: "string \<Rightarrow> string" where
  "displayNameFilter name = ''displayName eq '' @ [CHR 0x27] @ name @ [CHR 0x27]"

definition GroupGetByDisplayName ::
  "'s GroupsClient \<Rightarrow> string \<Rightarrow> 's world \<Rightarrow> ADGroup result \<times> 's world" where
  "GroupGetByDisplayName client displayName w =
     (let flt = displayNameFilter displayName in
      case call_ListComplete client flt w of
        (Inl err, w1) \<Rightarrow> (Fails (ListingGroupsForFilter flt err), w1)
      | (Inr None, w1) \<Rightarrow> (Fails (NilValuesForGroups flt), w1)
      | (Inr (Some vals), w1) \<Rightarrow>
          (if length vals = 0 then (Fails (FoundNoGroups flt), w1)
           else if length vals > 2 then (Fails (FoundMultipleGroups flt), w1)
           else
             (let grp = vals ! 0 in
              case ADGroup.DisplayName grp of
                None \<Rightarrow> (Fails (NilDisplayNameForGroups flt), w1)
              | Some d \<Rightarrow>
                  if d \<noteq> displayName
                  then (Fails (DisplayNameDoesNotMatch flt d displayName), w1)
                  else (Returns grp, w1))))"

fun GroupFindByName_range :: "string \<Rightarrow> ADGroup list \<Rightarrow> ADGroup option result" where
  "GroupFindByName_range name [] = Returns None"
| "GroupFindByName_range name (grp # rest) =
     (case ADGroup.DisplayName grp of
        None \<Rightarrow> Panics
      | Some d \<Rightarrow> if d = name then Returns (Some grp) else GroupFindByName_range name rest)"

definition GroupFindByName ::
  "'s GroupsClient \<Rightarrow> string \<Rightarrow> 's world \<Rightarrow> ADGroup option result \<times> 's world" where
  "GroupFindByName client name w =
     (let nameFilter = displayNameFilter name in
      case call_List client nameFilter w of
        (Inl err, w1) \<Rightarrow> (Fails (UnableToListGroups nameFilter err), w1)
      | (Inr vals, w1) \<Rightarrow> (GroupFindByName_range name vals, w1))"

section \<open>Listing the members of a group\<close>

text \<open>
  \<^verbatim>\<open>ids = append(ids, *x.ObjectID)\<close> under \<^verbatim>\<open>if x != nil\<close>: the first argument is the
  projection (\<open>None\<close> is the nil pointer), holding the \<^verbatim>\<open>ObjectID\<close> field. The result
  \<open>None\<close> is the panic of dereferencing a nil \<^verbatim>\<open>ObjectID\<close>.
\<close>

fun append_ObjectID :: "string option option \<Rightarrow> string list \<Rightarrow> string list option" where
  "append_ObjectID None ids = Some ids"
| "append_ObjectID (Some None) ids = None"
| "append_ObjectID (Some (Some i)) ids = Some (ids @ [i])"

fun DirectoryObjectListToIDs_loop :: "iterator \<Rightarrow> string list \<Rightarrow> string list result" where
  "DirectoryObjectListToIDs_loop [] ids = Returns ids"
| "DirectoryObjectListToIDs_loop ((v, next) # objects) ids =
     (case append_ObjectID (map_option User.ObjectID (AsUser v)) ids of
        None \<Rightarrow> Panics
      | Some ids1 \<Rightarrow>
     (case append_ObjectID (map_option ADGroup.ObjectID (AsADGroup v)) ids1 of
        None \<Rightarrow> Panics
      | Some ids2 \<Rightarrow>
     (case append_ObjectID (map_option ServicePrincipal.ObjectID (AsServicePrincipal v)) ids2 of
        None \<Rightarrow> Panics
      | Some ids3 \<Rightarrow>
     (case next of
        Some err \<Rightarrow> Fails (DuringPagination err)
      | None \<Rightarrow> DirectoryObjectListToIDs_loop objects ids3))))"

definition DirectoryObjectListToIDs :: "iterator \<Rightarrow> string list result" where
  "DirectoryObjectListToIDs objects = DirectoryObjectListToIDs_loop objects []"

definition GroupAllMembers ::
  "'s GroupsClient \<Rightarrow> string \<Rightarrow> 's world \<Rightarrow> string list result \<times> 's world" where
  "GroupAllMembers client groupId w =
     (case call_GetGroupMembersComplete client groupId w of
        (Inl err, w1) \<Rightarrow> (Fails (ListingGroupMembers groupId err), w1)
      | (Inr members, w1) \<Rightarrow>
          (case DirectoryObjectListToIDs members of
             Fails err \<Rightarrow> (Fails (GettingMemberIDs groupId err), w1)
           | Panics \<Rightarrow> (Panics, w1)
           | Returns existingMembers \<Rightarrow> (Returns existingMembers, w1)))"

section \<open>Adding members\<close>

definition attempts :: nat where
  "attempts = 10"

text \<open>
  The \<^verbatim>\<open>for i := 0; i <= attempts; i++\<close> loop of \<^verbatim>\<open>GroupAddMember\<close>. \<open>Fails\<close> is the
  \<^verbatim>\<open>return\<close> inside the loop; \<open>Returns ()\<close> is leaving the loop, by \<^verbatim>\<open>break\<close> or by the
  loop condition.
\<close>

function GroupAddMember_loop ::
  "'s GroupsClient \<Rightarrow> string \<Rightarrow> string \<Rightarrow> string \<Rightarrow> nat \<Rightarrow> 's world \<Rightarrow> unit result \<times> 's world"
  where
  "GroupAddMember_loop client groupId member url i w =
     (if i \<le> attempts then
        (case call_AddMember client groupId url w of
           (None, w1) \<Rightarrow> (Returns (), w1)
         | (Some err, w1) \<Rightarrow>
             if i = attempts then (Fails (AddingGroupMember member groupId err), w1)
             else GroupAddMember_loop client groupId member url (i + 1) (sleep client 2 w1))
      else (Returns (), w))"
  by pat_completeness auto
termination
  by (relation "measure (\<lambda>(client, groupId, member, url, i, w). Suc attempts - i)") auto

declare GroupAddMember_loop.simps [simp del]

text \<open>
  \<^verbatim>\<open>WaitForListAdd\<close> is a function of the package that is missing from the sources;
  \<^verbatim>\<open>GroupAddMember\<close> takes it as the parameter \<open>poll\<close>: the target, the producer of the
  current list, and the world it runs in.
\<close>

type_synonym 's producer = "'s world \<Rightarrow> string list result \<times> 's world"

type_synonym 's poller = "string \<Rightarrow> 's producer \<Rightarrow> 's world \<Rightarrow> string list result \<times> 's world"

definition GroupAddMember ::
  "'s poller \<Rightarrow> 's GroupsClient \<Rightarrow> string \<Rightarrow> string \<Rightarrow> 's world \<Rightarrow> unit result \<times> 's world" where
  "GroupAddMember poll client groupId member w =
     (let memberGraphURL = directoryObjectURL (TenantID client) member in
      case GroupAddMember_loop client groupId member memberGraphURL 0 w of
        (Fails err, w1) \<Rightarrow> (Fails err, w1)
      | (Panics, w1) \<Rightarrow> (Panics, w1)
      | (Returns u, w1) \<Rightarrow>
          (case poll member (GroupAllMembers client groupId) w1 of
             (Fails err, w2) \<Rightarrow> (Fails (WaitingForGroupMembership err), w2)
           | (Panics, w2) \<Rightarrow> (Panics, w2)
           | (Returns l, w2) \<Rightarrow> (Returns (), w2)))"

fun GroupAddMembers ::
  "'s poller \<Rightarrow> 's GroupsClient \<Rightarrow> string \<Rightarrow> string list \<Rightarrow> 's world \<Rightarrow> unit result \<times> 's world"
  where
  "GroupAddMembers poll client groupId [] w = (Returns (), w)"
| "GroupAddMembers poll client groupId (memberUuid # members) w =
     (case GroupAddMember poll client groupId memberUuid w of
        (Fails err, w1) \<Rightarrow> (Fails (WhileAddingMembers groupId err), w1)
      | (Panics, w1) \<Rightarrow> (Panics, w1)
      | (Returns u, w1) \<Rightarrow> GroupAddMembers poll client groupId members w1)"

text \<open>
  Modelled from the spec: \<^verbatim>\<open>WaitForListAdd\<close> is missing from the sources. The spec has it
  invoke the producer repeatedly; an error of the producer is surfaced at once; a list that
  contains the target is returned at once; otherwise it waits a fixed delay and tries
  again, and when the budget of attempts is used up it returns a timeout error that
  identifies the target. The spec fixes neither the budget nor the delay: they are the
  parameters \<open>budget\<close> and \<open>delay\<close>. A panic of the producer is not caught.
\<close>

fun WaitForListAdd ::
  "'s GroupsClient \<Rightarrow> nat \<Rightarrow> nat \<Rightarrow> string \<Rightarrow> 's producer \<Rightarrow> 's world \<Rightarrow> string list result \<times> 's world"
  where
  "WaitForListAdd client delay 0 item f w = (Fails (PollTimeout item), w)"
| "WaitForListAdd client delay (Suc budget) item f w =
     (case f w of
        (Fails err, w1) \<Rightarrow> (Fails err, w1)
      | (Panics, w1) \<Rightarrow> (Panics, w1)
      | (Returns listItems, w1) \<Rightarrow>
          if item \<in> set listItems then (Returns listItems, w1)
          else WaitForListAdd client delay budget item f (sleep client delay w1))"

section \<open>GroupAddOwner\<close>

definition GroupAddOwner ::
  "'s GroupsClient \<Rightarrow> string \<Rightarrow> string \<Rightarrow> 's world \<Rightarrow> unit result \<times> 's world" where
  "GroupAddOwner client groupId owner w =
     (let ownerGraphURL = directoryObjectURL (TenantID client) owner in
      case call_AddOwner client groupId ownerGraphURL w of
        (Some err, w1) \<Rightarrow> (Fails (AddingGroupOwner owner groupId err), w1)
      | (None, w1) \<Rightarrow> (Returns (), w1))"

section \<open>Notions used to state the properties\<close>

text \<open>
  The number of projections of a directory object that succeed, whether it is recognised
  at all, and the \<^verbatim>\<open>ObjectID\<close> of the first projection that succeeds.
\<close>

definition variants :: "DirectoryObject \<Rightarrow> nat" where
  "variants v =
     (if AsUser v = None then 0 else 1) + (if AsADGroup v = None then 0 else 1)
     + (if AsServicePrincipal v = None then 0 else 1)"

definition recognized :: "DirectoryObject \<Rightarrow> bool" where
  "recognized v = (variants v > 0)"

definition object_id :: "DirectoryObject \<Rightarrow> string option" where
  "object_id v =
     (case AsUser v of
        Some u \<Rightarrow> User.ObjectID u
      | None \<Rightarrow>
     (case AsADGroup v of
        Some g \<Rightarrow> ADGroup.ObjectID g
      | None \<Rightarrow>
     (case AsServicePrincipal v of
        Some p \<Rightarrow> ServicePrincipal.ObjectID p
      | None \<Rightarrow> None)))"

text \<open>
  The world after \<open>n\<close> calls of \<^verbatim>\<open>AddMember\<close>, each followed by the sleep of two
  seconds, and the outcome of the call made next: attempt \<open>n + 1\<close> of the retry loop when
  the \<open>n\<close> attempts before it failed.
\<close>

fun after_failed_attempts ::
  "'s GroupsClient \<Rightarrow> string \<Rightarrow> string \<Rightarrow> nat \<Rightarrow> 's world \<Rightarrow> 's world" where
  "after_failed_attempts client groupId url 0 w = w"
| "after_failed_attempts client groupId url (Suc n) w =
     sleep client 2
       (snd (call_AddMember client groupId url (after_failed_attempts client groupId url n w)))"

definition attempt_outcome ::
  "'s GroupsClient \<Rightarrow> string \<Rightarrow> string \<Rightarrow> nat \<Rightarrow> 's world \<Rightarrow> error option" where
  "attempt_outcome client groupId url n w =
     fst (call_AddMember client groupId url (after_failed_attempts client groupId url n w))"

text \<open>The events of failed attempts: each failed call is followed by one sleep of two seconds.\<close>

fun retry_events :: "string \<Rightarrow> string \<Rightarrow> error list \<Rightarrow> event list" where
  "retry_events groupId url [] = []"
| "retry_events groupId url (err # errs) =
     EvAddMember groupId url (Some err) # EvSleep 2 # retry_events groupId url errs"

text \<open>The world after \<^verbatim>\<open>GroupAddMember\<close> has run on each member of a list, in order.\<close>

definition world_after_adding ::
  "'s poller \<Rightarrow> 's GroupsClient \<Rightarrow> string \<Rightarrow> string list \<Rightarrow> 's world \<Rightarrow> 's world" where
  "world_after_adding poll client groupId members w =
     foldl (\<lambda>w' memberUuid. snd (GroupAddMember poll client groupId memberUuid w')) w members"

section \<open>Concrete directories\<close>

definition dev_group :: ADGroup where
  "dev_group = \<lparr>DisplayName = Some ''dev'', ObjectID = Some ''g-1''\<rparr>"

definition ops_group :: ADGroup where
  "ops_group = \<lparr>DisplayName = Some ''ops'', ObjectID = Some ''g-2''\<rparr>"

definition nameless_group :: ADGroup where
  "nameless_group = \<lparr>DisplayName = None, ObjectID = Some ''g-3''\<rparr>"

definition user_object :: "string option \<Rightarrow> DirectoryObject" where
  "user_object i =
     \<lparr>AsUser = Some \<lparr>User.ObjectID = i\<rparr>, AsADGroup = None, AsServicePrincipal = None\<rparr>"

definition group_object :: "string option \<Rightarrow> DirectoryObject" where
  "group_object i =
     \<lparr>AsUser = None, AsADGroup = Some \<lparr>DisplayName = None, ObjectID = i\<rparr>,
      AsServicePrincipal = None\<rparr>"

definition service_principal_object :: "string option \<Rightarrow> DirectoryObject" where
  "service_principal_object i =
     \<lparr>AsUser = None, AsADGroup = None,
      AsServicePrincipal = Some \<lparr>ServicePrincipal.ObjectID = i\<rparr>\<rparr>"

definition unrecognized_object :: DirectoryObject where
  "unrecognized_object = \<lparr>AsUser = None, AsADGroup = None, AsServicePrincipal = None\<rparr>"

text \<open>
  A directory whose state counts the calls of \<^verbatim>\<open>AddMember\<close>: the first three fail, every
  later one succeeds. Its member listing has one user, one unrecognised object, one group
  and one service principal.
\<close>

definition directory :: "nat GroupsClient" where
  "directory =
     \<lparr>TenantID = ''t-1'',
      AddMember = (\<lambda>groupId url s. (if s < 3 then Some (Remote ''busy'') else None, Suc s)),
      AddOwner = (\<lambda>groupId url s. (None, s)),
      GetGroupMembersComplete = (\<lambda>groupId s.
        (Inr [(user_object (Some ''u-1''), None), (unrecognized_object, None),
              (group_object (Some ''g-1''), None),
              (service_principal_object (Some ''p-1''), None)], s)),
      List = (\<lambda>nameFilter s.
        (Inr (if nameFilter = displayNameFilter ''dev'' then [nameless_group, dev_group]
              else if nameFilter = displayNameFilter ''qa'' then [ops_group, nameless_group]
              else [ops_group, dev_group]), s)),
      ListComplete = (\<lambda>flt s.
        (Inr (if flt = displayNameFilter ''dev'' then Some [dev_group, ops_group]
              else if flt = displayNameFilter ''ops'' then Some [dev_group, ops_group, ops_group]
              else Some []), s)),
      elapse = (\<lambda>secs s. s)\<rparr>"

text \<open>The same directory with an \<^verbatim>\<open>AddMember\<close> that fails on every call.\<close>

definition unreachable :: "nat GroupsClient" where
  "unreachable = directory\<lparr>AddMember := (\<lambda>groupId url s. (Some (Remote ''denied''), Suc s))\<rparr>"

definition start :: "nat world" where
  "start = \<lparr>remote = 0, events = []\<rparr>"

definition after_u1 :: "nat world" where
  "after_u1 =
     \<lparr>remote = 4,
      events = retry_events ''g-1'' (directoryObjectURL ''t-1'' ''u-1'')
                 [Remote ''busy'', Remote ''busy'', Remote ''busy'']
               @ [EvAddMember ''g-1'' (directoryObjectURL ''t-1'' ''u-1'') None,
                  EvGetGroupMembersComplete ''g-1'']\<rparr>"

definition after_x9 :: "nat world" where
  "after_x9 =
     \<lparr>remote = 5,
      events = events after_u1
               @ [EvAddMember ''g-1'' (directoryObjectURL ''t-1'' ''x-9'') None,
                  EvGetGroupMembersComplete ''g-1'', EvSleep 5,
                  EvGetGroupMembersComplete ''g-1'', EvSleep 5,
                  EvGetGroupMembersComplete ''g-1'', EvSleep 5]\<rparr>"

section \<open>The identifier codec round-trips\<close>

lemma split_on_no_sep: "sep \<notin> set a \<Longrightarrow> split_on sep a = [a]"
  by (induction a) auto

lemma split_on_prefix:
  "sep \<notin> set a \<Longrightarrow> split_on sep (a @ sep # rest) = a # split_on sep rest"
  by (induction a) auto

text \<open>
  C3. For valid identifiers \<open>groupId\<close> and \<open>memberId\<close> (non-empty, free of the separator,
  which does not occur in the tag \<open>member\<close> either), \<open>ParseGroupMemberId\<close> applied to the
  string form of \<open>GroupMemberIdFrom groupId memberId\<close> succeeds and gives back that very
  value, whose \<open>GroupId\<close> is \<open>groupId\<close> and whose \<open>MemberId\<close> is \<open>memberId\<close>.
\<close>

theorem GroupMemberId_round_trip:
  assumes "valid_identifier sep groupId" and "valid_identifier sep memberId"
    and "sep \<notin> set ''member''"
  shows "ParseGroupMemberId sep
           (ObjectSubResourceId_String sep (SubResourceId (GroupMemberIdFrom groupId memberId)))
         = Returns (GroupMemberIdFrom groupId memberId)
       \<and> GroupId (GroupMemberIdFrom groupId memberId) = groupId
       \<and> MemberId (GroupMemberIdFrom groupId memberId) = memberId"
proof -
  from assms have g: "sep \<notin> set groupId" and m: "sep \<notin> set memberId"
    by (simp_all add: valid_identifier_def)
  have "split_on sep (groupId @ sep # (''member'' @ sep # memberId))
        = groupId # ''member'' # split_on sep memberId"
    by (simp only: split_on_prefix [OF g] split_on_prefix [OF assms(3)])
  then have parts: "split_on sep (groupId @ [sep] @ ''member'' @ [sep] @ memberId)
        = [groupId, ''member'', memberId]"
    by (simp only: split_on_no_sep [OF m] append_Cons append_Nil)
  from assms have ne: "groupId \<noteq> []" "memberId \<noteq> []"
    by (simp_all add: valid_identifier_def)
  have str: "ObjectSubResourceId_String sep (SubResourceId (GroupMemberIdFrom groupId memberId))
        = groupId @ [sep] @ ''member'' @ [sep] @ memberId"
    by (simp add: ObjectSubResourceId_String_def GroupMemberIdFrom_def ObjectSubResourceIdFrom_def)
  have parse: "ParseObjectSubResourceId sep (groupId @ [sep] @ ''member'' @ [sep] @ memberId) ''member''
        = Returns \<lparr>objectId = groupId, subId = memberId, kind = ''member''\<rparr>"
    unfolding ParseObjectSubResourceId_def parts using ne by simp
  have "ParseGroupMemberId sep
           (ObjectSubResourceId_String sep (SubResourceId (GroupMemberIdFrom groupId memberId)))
         = Returns (GroupMemberIdFrom groupId memberId)"
    unfolding ParseGroupMemberId_def str parse
    by (simp add: GroupMemberIdFrom_def ObjectSubResourceIdFrom_def)
  then show ?thesis
    by (simp add: GroupMemberIdFrom_def)
qed

theorem GroupMemberId_round_trip_witness:
  "ParseGroupMemberId CHR ''/''
     (ObjectSubResourceId_String CHR ''/'' (SubResourceId (GroupMemberIdFrom ''g-1'' ''u-1'')))
   = Returns (GroupMemberIdFrom ''g-1'' ''u-1'')
   \<and> GroupId (GroupMemberIdFrom ''g-1'' ''u-1'') = ''g-1''
   \<and> MemberId (GroupMemberIdFrom ''g-1'' ''u-1'') = ''u-1''"
  using GroupMemberId_round_trip [of "CHR ''/''" "''g-1''" "''u-1''"]
  by (simp add: valid_identifier_def)

section \<open>The strict lookup by display name\<close>

text \<open>
  C5. Let the filtered listing inside \<open>GroupGetByDisplayName\<close> answer \<open>r\<close>. The function
  returns an error when \<open>r\<close> has no values (nil or empty), when it has more than two, and
  when the display name of its first value is not exactly \<open>name\<close>. It returns a group
  exactly when \<open>r\<close> holds one or two values and the display name of the first is \<open>name\<close>;
  the group returned is that first value.
\<close>

theorem GroupGetByDisplayName_strict:
  assumes "ListComplete client (displayNameFilter name) (remote w) = (r, s)"
  shows "(r = Inr None \<or> r = Inr (Some []) \<longrightarrow>
            (\<exists>e. fst (GroupGetByDisplayName client name w) = Fails e))
       \<and> (\<forall>vals. r = Inr (Some vals) \<and> length vals > 2 \<longrightarrow>
            (\<exists>e. fst (GroupGetByDisplayName client name w) = Fails e))
       \<and> (\<forall>vals. r = Inr (Some vals) \<and> vals \<noteq> []
                 \<and> ADGroup.DisplayName (vals ! 0) \<noteq> Some name \<longrightarrow>
            (\<exists>e. fst (GroupGetByDisplayName client name w) = Fails e))
       \<and> (\<forall>g. fst (GroupGetByDisplayName client name w) = Returns g \<longleftrightarrow>
            (\<exists>vals. r = Inr (Some vals) \<and> (length vals = 1 \<or> length vals = 2)
                    \<and> g = vals ! 0 \<and> ADGroup.DisplayName g = Some name))"
proof -
  have len: "length xs = Suc 0" if "xs \<noteq> []" "\<not> 2 < length xs" "length xs \<noteq> 2"
    for xs :: "ADGroup list"
  proof -
    from that have "length xs \<noteq> 0" "length xs \<le> 2" by auto
    with that show ?thesis by arith
  qed
  show ?thesis
    using assms
    by (auto simp: GroupGetByDisplayName_def call_ListComplete_def Let_def
             split: sum.splits option.splits intro: len)
qed

theorem GroupGetByDisplayName_strict_witness:
  "fst (GroupGetByDisplayName directory ''dev'' start) = Returns dev_group
   \<and> (\<exists>e. fst (GroupGetByDisplayName directory ''ops'' start) = Fails e)
   \<and> (\<exists>e. fst (GroupGetByDisplayName directory ''qa'' start) = Fails e)"
proof -
  have "fst (GroupGetByDisplayName directory ''dev'' start) = Returns dev_group"
    using GroupGetByDisplayName_strict
      [of directory "''dev''" start "Inr (Some [dev_group, ops_group])" 0]
    by (simp add: directory_def start_def dev_group_def)
  moreover have "\<exists>e. fst (GroupGetByDisplayName directory ''ops'' start) = Fails e"
    using GroupGetByDisplayName_strict
      [of directory "''ops''" start "Inr (Some [dev_group, ops_group, ops_group])" 0]
    by (simp add: directory_def start_def displayNameFilter_def)
  moreover have "\<exists>e. fst (GroupGetByDisplayName directory ''qa'' start) = Fails e"
    using GroupGetByDisplayName_strict [of directory "''qa''" start "Inr (Some [])" 0]
    by (simp add: directory_def start_def displayNameFilter_def)
  ultimately show ?thesis by blast
qed

text \<open>
  C10. When the filtered listing answers exactly two groups, the outcome of
  \<open>GroupGetByDisplayName\<close> is a function of the first one alone: the first group when its
  display name is \<open>name\<close>, an error otherwise. A listing that differs only in its second
  group has the same outcome, so the second group is neither examined nor returned.
\<close>

theorem GroupGetByDisplayName_two_results:
  assumes "ListComplete client (displayNameFilter name) (remote w) = (Inr (Some [g1, g2]), s)"
    and "ListComplete client' (displayNameFilter name) (remote w') = (Inr (Some [g1, g2']), s')"
  shows "fst (GroupGetByDisplayName client name w) =
           (case ADGroup.DisplayName g1 of
              None \<Rightarrow> Fails (NilDisplayNameForGroups (displayNameFilter name))
            | Some d \<Rightarrow>
                if d = name then Returns g1
                else Fails (DisplayNameDoesNotMatch (displayNameFilter name) d name))
       \<and> fst (GroupGetByDisplayName client' name w') = fst (GroupGetByDisplayName client name w)"
  using assms
  by (auto simp: GroupGetByDisplayName_def call_ListComplete_def Let_def
           split: sum.splits option.splits)

theorem GroupGetByDisplayName_two_results_witness:
  "fst (GroupGetByDisplayName directory ''dev'' start) = Returns dev_group
   \<and> fst (GroupGetByDisplayName
            (directory\<lparr>ListComplete := (\<lambda>flt s. (Inr (Some [dev_group, dev_group]), s))\<rparr>)
            ''dev'' start)
     = fst (GroupGetByDisplayName directory ''dev'' start)"
  using GroupGetByDisplayName_two_results
    [of directory "''dev''" start dev_group ops_group 0
        "directory\<lparr>ListComplete := (\<lambda>flt s. (Inr (Some [dev_group, dev_group]), s))\<rparr>"
        start dev_group 0]
  by (simp add: directory_def start_def dev_group_def)

section \<open>Identifiers of a member listing\<close>

lemma DirectoryObjectListToIDs_loop_ids:
  assumes "\<forall>(v, nx) \<in> set objects.
             variants v \<le> 1 \<and> nx = None \<and> (recognized v \<longrightarrow> object_id v \<noteq> None)"
  shows "DirectoryObjectListToIDs_loop objects ids =
         Returns (ids @ map (the \<circ> object_id) (filter recognized (map fst objects)))"
  using assms
proof (induction objects arbitrary: ids)
  case Nil
  then show ?case by simp
next
  case (Cons x objects)
  obtain v nx where x: "x = (v, nx)" by (cases x)
  from Cons.prems x
  have v: "variants v \<le> 1" "nx = None" "recognized v \<longrightarrow> object_id v \<noteq> None"
    by auto
  from Cons.prems
  have rest: "\<forall>(v, nx) \<in> set objects.
                variants v \<le> 1 \<and> nx = None \<and> (recognized v \<longrightarrow> object_id v \<noteq> None)"
    by simp
  show ?case
    using v
    by (cases "AsUser v"; cases "AsADGroup v"; cases "AsServicePrincipal v")
       (auto simp: x Cons.IH [OF rest] variants_def recognized_def object_id_def)
qed

text \<open>
  On a listing in which every element is recognised as at most one of user, group and
  service principal, every recognised element carries its \<^verbatim>\<open>ObjectID\<close>, and no
  \<^verbatim>\<open>NextWithContext\<close> fails, \<open>DirectoryObjectListToIDs\<close> returns the identifiers of
  exactly the recognised elements, in the order of the listing, and nothing for an
  element that is not recognised. One user, one group, one service principal and one
  unrecognised element give three identifiers, in order.
\<close>

lemma DirectoryObjectListToIDs_recognized:
  assumes "\<forall>(v, nx) \<in> set objects.
             variants v \<le> 1 \<and> nx = None \<and> (recognized v \<longrightarrow> object_id v \<noteq> None)"
  shows "DirectoryObjectListToIDs objects =
           Returns (map (the \<circ> object_id) (filter recognized (map fst objects)))
       \<and> DirectoryObjectListToIDs
           [(user_object (Some u), None), (group_object (Some g), None),
            (service_principal_object (Some p), None), (unrecognized_object, None)]
         = Returns [u, g, p]"
  using DirectoryObjectListToIDs_loop_ids [OF assms, of "[]"]
  by (simp add: DirectoryObjectListToIDs_def user_object_def group_object_def
      service_principal_object_def unrecognized_object_def)

lemma DirectoryObjectListToIDs_recognized_example:
  "DirectoryObjectListToIDs
     [(user_object (Some ''u-1''), None), (unrecognized_object, None),
      (group_object (Some ''g-1''), None), (service_principal_object (Some ''p-1''), None)]
   = Returns [''u-1'', ''g-1'', ''p-1'']"
  using DirectoryObjectListToIDs_recognized
    [of "[(user_object (Some ''u-1''), None), (unrecognized_object, None),
          (group_object (Some ''g-1''), None), (service_principal_object (Some ''p-1''), None)]"]
  by (simp add: variants_def recognized_def object_id_def
      user_object_def group_object_def service_principal_object_def unrecognized_object_def)

text \<open>
  C7. The claim is that on every listing whose elements are each recognised as at most
  one of user, group and service principal, and whose pagination never fails,
  \<open>DirectoryObjectListToIDs\<close> returns the identifiers of the recognised elements. The
  listing below is such a one: a user with its \<^verbatim>\<open>ObjectID\<close>, an unrecognised object and a
  service principal whose \<^verbatim>\<open>ObjectID\<close> is nil, each followed by a \<^verbatim>\<open>NextWithContext\<close>
  that succeeds. The code dereferences the nil \<^verbatim>\<open>ObjectID\<close> and panics instead of
  returning.
\<close>

theorem DirectoryObjectListToIDs_absent_id_panics:
  "variants (user_object (Some ''u-1'')) = 1
   \<and> variants unrecognized_object = 0
   \<and> variants (service_principal_object None) = 1
   \<and> DirectoryObjectListToIDs
        [(user_object (Some ''u-1''), None), (unrecognized_object, None),
         (service_principal_object None, None)]
      = Panics"
  by (simp add: DirectoryObjectListToIDs_def variants_def user_object_def
      unrecognized_object_def service_principal_object_def)

section \<open>Absent fields\<close>

text \<open>
  On a page in which every group carries its display name, \<open>GroupFindByName\<close> returns the
  first group whose display name is exactly \<open>name\<close>, and nothing when there is none.
\<close>

lemma GroupFindByName_range_named:
  assumes "\<forall>g \<in> set page. ADGroup.DisplayName g \<noteq> None"
  shows "GroupFindByName_range name page
         = Returns (find (\<lambda>g. ADGroup.DisplayName g = Some name) page)"
  using assms by (induction page) auto

text \<open>
  C4. The claim is that no operation panics, also when a \<^verbatim>\<open>DisplayName\<close> or an
  \<^verbatim>\<open>ObjectID\<close> is absent. The code dereferences both without a nil check:
  \<open>GroupFindByName\<close> panics on a page whose first group has no display name, and
  \<open>DirectoryObjectListToIDs\<close> panics on a user without \<^verbatim>\<open>ObjectID\<close>.
\<close>

theorem absent_field_panics:
  "fst (GroupFindByName directory ''dev'' start) = Panics
   \<and> DirectoryObjectListToIDs [(user_object None, None)] = Panics"
  by (simp add: GroupFindByName_def call_List_def directory_def start_def nameless_group_def
      DirectoryObjectListToIDs_def user_object_def)

text \<open>
  C8. The claim is that a page without a group named exactly \<open>name\<close> gives the absent
  result. On the page \<open>[ops_group, nameless_group]\<close> no display name equals \<open>qa\<close>, and
  \<open>GroupFindByName\<close> panics instead of returning nothing.
\<close>

theorem GroupFindByName_no_match_panics:
  "List directory (displayNameFilter ''qa'') (remote start)
     = (Inr [ops_group, nameless_group], 0)
   \<and> ADGroup.DisplayName ops_group \<noteq> Some ''qa''
   \<and> ADGroup.DisplayName nameless_group \<noteq> Some ''qa''
   \<and> fst (GroupFindByName directory ''qa'' start) = Panics"
  by (simp add: GroupFindByName_def call_List_def directory_def start_def nameless_group_def
      ops_group_def displayNameFilter_def)

section \<open>Adding an owner\<close>

text \<open>
  C6. \<open>GroupAddOwner\<close> makes exactly one remote call, \<^verbatim>\<open>AddOwner\<close>, whatever its outcome:
  the events it adds are that one call, with no sleep and no listing of the poller. It
  returns nil when the call succeeds and the wrapped error when it fails.
\<close>

theorem GroupAddOwner_single_call:
  "\<exists>res s'.
      AddOwner client groupId (directoryObjectURL (TenantID client) owner) (remote w) = (res, s')
    \<and> snd (GroupAddOwner client groupId owner w) =
        \<lparr>remote = s',
         events = events w @ [EvAddOwner groupId (directoryObjectURL (TenantID client) owner) res]\<rparr>
    \<and> fst (GroupAddOwner client groupId owner w) =
        (case res of
           None \<Rightarrow> Returns ()
         | Some err \<Rightarrow> Fails (AddingGroupOwner owner groupId err))"
  by (cases "AddOwner client groupId (directoryObjectURL (TenantID client) owner) (remote w)")
     (auto simp: GroupAddOwner_def call_AddOwner_def Let_def split: option.splits)

section \<open>The retry loop of GroupAddMember\<close>

lemma retry_events_snoc:
  "retry_events g u (errs @ [err])
   = retry_events g u errs @ [EvAddMember g u (Some err), EvSleep 2]"
  by (induction errs) auto

lemma events_call_AddMember:
  "events (snd (call_AddMember c g u w))
   = events w @ [EvAddMember g u (fst (call_AddMember c g u w))]"
  by (simp add: call_AddMember_def split: prod.splits)

lemma events_sleep: "events (sleep c n w) = events w @ [EvSleep n]"
  by (simp add: sleep_def)

text \<open>While the attempts fail and the cap is not reached, the loop goes on to the next one.\<close>

lemma loop_skips_failures:
  assumes "i + n \<le> attempts"
    and "\<forall>j<n. attempt_outcome c g u j w \<noteq> None"
  shows "GroupAddMember_loop c g m u i w
         = GroupAddMember_loop c g m u (i + n) (after_failed_attempts c g u n w)"
  using assms
proof (induction n)
  case 0
  then show ?case by simp
next
  case (Suc n)
  let ?w = "after_failed_attempts c g u n w"
  from Suc.prems have "attempt_outcome c g u n w \<noteq> None" by simp
  then obtain err w1 where call: "call_AddMember c g u ?w = (Some err, w1)"
    by (cases "call_AddMember c g u ?w") (auto simp: attempt_outcome_def)
  from Suc.prems have "GroupAddMember_loop c g m u i w = GroupAddMember_loop c g m u (i + n) ?w"
    by (intro Suc.IH) auto
  also from Suc.prems call have "\<dots> = GroupAddMember_loop c g m u (i + n + 1) (sleep c 2 w1)"
    by (subst GroupAddMember_loop.simps) simp
  finally show ?case using call by simp
qed

lemma events_after_failed_attempts:
  assumes "\<forall>j<n. attempt_outcome c g u j w \<noteq> None"
  shows "\<exists>errs. length errs = n
           \<and> events (after_failed_attempts c g u n w) = events w @ retry_events g u errs"
  using assms
proof (induction n)
  case 0
  then show ?case by simp
next
  case (Suc n)
  then obtain errs where errs: "length errs = n"
      "events (after_failed_attempts c g u n w) = events w @ retry_events g u errs"
    by auto
  from Suc.prems obtain err where err: "attempt_outcome c g u n w = Some err"
    by auto
  have "events (after_failed_attempts c g u (Suc n) w)
        = events w @ retry_events g u (errs @ [err])"
    using errs err
    by (simp add: events_sleep events_call_AddMember retry_events_snoc attempt_outcome_def)
  with errs show ?case
    by (intro exI [of _ "errs @ [err]"]) simp
qed

text \<open>
  C1. Let \<open>url\<close> be the directory URL of the member. If \<^verbatim>\<open>AddMember\<close> fails on every
  call, \<open>GroupAddMember\<close> calls it eleven times, sleeps two seconds after each of the first
  ten calls, and returns the error that names the member and the group and wraps the
  error of the eleventh call. If attempt \<open>k\<close> (with \<open>1 \<le> k \<le> 11\<close>) is the first to
  succeed, the loop is left after \<open>k\<close> calls and \<open>k - 1\<close> sleeps.
\<close>

theorem GroupAddMember_retries:
  assumes url: "url = directoryObjectURL (TenantID client) member"
  shows "((\<forall>g u s. fst (AddMember client g u s) \<noteq> None) \<longrightarrow>
            (\<exists>errs err w'. length errs = 10
               \<and> GroupAddMember poll client groupId member w
                   = (Fails (AddingGroupMember member groupId err), w')
               \<and> events w' = events w @ retry_events groupId url errs
                                @ [EvAddMember groupId url (Some err)]))
       \<and> (\<forall>k. 1 \<le> k \<and> k \<le> 11
              \<and> (\<forall>j<k - 1. attempt_outcome client groupId url j w \<noteq> None)
              \<and> attempt_outcome client groupId url (k - 1) w = None \<longrightarrow>
            (\<exists>errs w1. length errs = k - 1
               \<and> GroupAddMember_loop client groupId member url 0 w = (Returns (), w1)
               \<and> events w1 = events w @ retry_events groupId url errs
                                @ [EvAddMember groupId url None]))"
proof (intro conjI impI allI)
  assume fails: "\<forall>g u s. fst (AddMember client g u s) \<noteq> None"
  have always: "attempt_outcome client groupId url j w \<noteq> None" for j
  proof -
    have "fst (call_AddMember client groupId url v)
          = fst (AddMember client groupId url (remote v))" for v
      by (simp add: call_AddMember_def split: prod.splits)
    with fails show ?thesis by (simp add: attempt_outcome_def)
  qed
  let ?w = "after_failed_attempts client groupId url 10 w"
  have skip: "GroupAddMember_loop client groupId member url 0 w
              = GroupAddMember_loop client groupId member url 10 ?w"
    using loop_skips_failures [of 0 10 client groupId url w member] always
    by (simp add: attempts_def)
  from always [of 10]
  obtain err w' where call: "call_AddMember client groupId url ?w = (Some err, w')"
    by (cases "call_AddMember client groupId url ?w") (auto simp: attempt_outcome_def)
  have last: "GroupAddMember_loop client groupId member url 10 ?w
              = (Fails (AddingGroupMember member groupId err), w')"
    using call by (subst GroupAddMember_loop.simps) (simp add: attempts_def)
  from events_after_failed_attempts [of 10 client groupId url w] always
  obtain errs where errs: "length errs = 10"
      "events ?w = events w @ retry_events groupId url errs"
    by auto
  have "events w' = events ?w @ [EvAddMember groupId url (Some err)]"
    using events_call_AddMember [of client groupId url ?w] call by simp
  with errs skip last url
  show "\<exists>errs err w'. length errs = 10
               \<and> GroupAddMember poll client groupId member w
                   = (Fails (AddingGroupMember member groupId err), w')
               \<and> events w' = events w @ retry_events groupId url errs
                                @ [EvAddMember groupId url (Some err)]"
    by (intro exI [of _ errs] exI [of _ err] exI [of _ w']) (simp add: GroupAddMember_def)
next
  fix k
  assume k: "1 \<le> k \<and> k \<le> 11
              \<and> (\<forall>j<k - 1. attempt_outcome client groupId url j w \<noteq> None)
              \<and> attempt_outcome client groupId url (k - 1) w = None"
  let ?w = "after_failed_attempts client groupId url (k - 1) w"
  have skip: "GroupAddMember_loop client groupId member url 0 w
              = GroupAddMember_loop client groupId member url (k - 1) ?w"
  proof -
    from k have "0 + (k - 1) \<le> attempts" unfolding attempts_def by arith
    moreover from k have "\<forall>j<k - 1. attempt_outcome client groupId url j w \<noteq> None"
      by simp
    ultimately show ?thesis
      using loop_skips_failures [of 0 "k - 1" client groupId url w member] by simp
  qed
  from k obtain w1 where call: "call_AddMember client groupId url ?w = (None, w1)"
    by (cases "call_AddMember client groupId url ?w") (auto simp: attempt_outcome_def)
  have last: "GroupAddMember_loop client groupId member url (k - 1) ?w = (Returns (), w1)"
  proof -
    from k have "k - 1 \<le> attempts" unfolding attempts_def by arith
    with call show ?thesis by (subst GroupAddMember_loop.simps) simp
  qed
  from events_after_failed_attempts [of "k - 1" client groupId url w] k
  obtain errs where errs: "length errs = k - 1"
      "events ?w = events w @ retry_events groupId url errs"
    by auto
  have "events w1 = events ?w @ [EvAddMember groupId url None]"
    using events_call_AddMember [of client groupId url ?w] call by simp
  with errs skip last
  show "\<exists>errs w1. length errs = k - 1
               \<and> GroupAddMember_loop client groupId member url 0 w = (Returns (), w1)
               \<and> events w1 = events w @ retry_events groupId url errs
                                @ [EvAddMember groupId url None]"
    by (intro exI [of _ errs] exI [of _ w1]) simp
qed

lemmas concrete_defs = directory_def unreachable_def start_def call_AddMember_def
  call_GetGroupMembersComplete_def sleep_def directoryObjectURL_def attempts_def
  user_object_def group_object_def service_principal_object_def unrecognized_object_def
  GroupAllMembers_def DirectoryObjectListToIDs_def GroupAddMember_def

theorem GroupAddMember_retries_witness:
  "(\<exists>errs err w'. length errs = 10
      \<and> GroupAddMember (WaitForListAdd unreachable 5 3) unreachable ''g-1'' ''u-1'' start
          = (Fails (AddingGroupMember ''u-1'' ''g-1'' err), w')
      \<and> events w' = events start @ retry_events ''g-1'' (directoryObjectURL ''t-1'' ''u-1'') errs
                       @ [EvAddMember ''g-1'' (directoryObjectURL ''t-1'' ''u-1'') (Some err)])
   \<and> (\<exists>errs w1. length errs = 3
      \<and> GroupAddMember_loop directory ''g-1'' ''u-1'' (directoryObjectURL ''t-1'' ''u-1'') 0 start
          = (Returns (), w1)
      \<and> events w1 = events start @ retry_events ''g-1'' (directoryObjectURL ''t-1'' ''u-1'') errs
                       @ [EvAddMember ''g-1'' (directoryObjectURL ''t-1'' ''u-1'') None])"
proof -
  have u1: "directoryObjectURL ''t-1'' ''u-1'' = directoryObjectURL (TenantID unreachable) ''u-1''"
    by (simp add: unreachable_def directory_def)
  have u2: "directoryObjectURL ''t-1'' ''u-1'' = directoryObjectURL (TenantID directory) ''u-1''"
    by (simp add: directory_def)
  have fails: "\<forall>g u s. fst (AddMember unreachable g u s) \<noteq> None"
    by (simp add: unreachable_def directory_def)
  have outcomes:
    "(\<forall>j<4 - 1. attempt_outcome directory ''g-1'' (directoryObjectURL ''t-1'' ''u-1'') j start
                 \<noteq> None)
     \<and> attempt_outcome directory ''g-1'' (directoryObjectURL ''t-1'' ''u-1'') (4 - 1) start = None"
    by (simp add: attempt_outcome_def concrete_defs eval_nat_numeral less_Suc_eq)
  from GroupAddMember_retries [OF u1, of "WaitForListAdd unreachable 5 3" "''g-1''" start] fails
  have first: "\<exists>errs err w'. length errs = 10
      \<and> GroupAddMember (WaitForListAdd unreachable 5 3) unreachable ''g-1'' ''u-1'' start
          = (Fails (AddingGroupMember ''u-1'' ''g-1'' err), w')
      \<and> events w' = events start @ retry_events ''g-1'' (directoryObjectURL ''t-1'' ''u-1'') errs
                       @ [EvAddMember ''g-1'' (directoryObjectURL ''t-1'' ''u-1'') (Some err)]"
    by blast
  from GroupAddMember_retries [OF u2, of "WaitForListAdd directory 5 3" "''g-1''" start] outcomes
  have "1 \<le> (4::nat) \<and> (4::nat) \<le> 11 \<longrightarrow> (\<exists>errs w1. length errs = 4 - 1
      \<and> GroupAddMember_loop directory ''g-1'' ''u-1'' (directoryObjectURL ''t-1'' ''u-1'') 0 start
          = (Returns (), w1)
      \<and> events w1 = events start @ retry_events ''g-1'' (directoryObjectURL ''t-1'' ''u-1'') errs
                       @ [EvAddMember ''g-1'' (directoryObjectURL ''t-1'' ''u-1'') None])"
    by blast
  then have second: "\<exists>errs w1. length errs = 3
      \<and> GroupAddMember_loop directory ''g-1'' ''u-1'' (directoryObjectURL ''t-1'' ''u-1'') 0 start
          = (Returns (), w1)
      \<and> events w1 = events start @ retry_events ''g-1'' (directoryObjectURL ''t-1'' ''u-1'') errs
                       @ [EvAddMember ''g-1'' (directoryObjectURL ''t-1'' ''u-1'') None]"
    by simp
  from first second show ?thesis by (rule conjI)
qed

section \<open>Waiting for the membership\<close>

lemma WaitForListAdd_Returns:
  "WaitForListAdd c delay budget item f w = (Returns l, w2)
   \<Longrightarrow> item \<in> set l \<and> (\<exists>w'. f w' = (Returns l, w2))"
proof (induction budget arbitrary: w)
  case 0
  then show ?case by simp
next
  case (Suc budget)
  then show ?case
    by (cases "f w") (auto split: result.splits if_splits)
qed

lemma add_u1:
  "GroupAddMember (WaitForListAdd directory 5 3) directory ''g-1'' ''u-1'' start
   = (Returns (), after_u1)"
  by (simp add: GroupAddMember_loop.simps concrete_defs eval_nat_numeral Let_def after_u1_def)

lemma add_x9:
  "GroupAddMember (WaitForListAdd directory 5 3) directory ''g-1'' ''x-9'' after_u1
   = (Fails (WaitingForGroupMembership (PollTimeout ''x-9'')), after_x9)"
  by (simp add: GroupAddMember_loop.simps concrete_defs eval_nat_numeral Let_def
      after_u1_def after_x9_def)

text \<open>
  C2. When the retry loop of \<open>GroupAddMember\<close> is left with a successful add call, in the
  world \<open>w1\<close>, the function does not return yet: its outcome is that of \<open>WaitForListAdd\<close>
  run in \<open>w1\<close> with the member as target and \<open>GroupAllMembers\<close> of the group as producer,
  an error of the poll coming back wrapped. And \<open>GroupAddMember\<close> returns nil only when
  its last step is a listing by \<open>GroupAllMembers\<close> that contains the member.
\<close>

theorem GroupAddMember_waits:
  "(GroupAddMember_loop client groupId member (directoryObjectURL (TenantID client) member) 0 w
      = (Returns (), w1) \<longrightarrow>
    GroupAddMember (WaitForListAdd client delay budget) client groupId member w =
      (case WaitForListAdd client delay budget member (GroupAllMembers client groupId) w1 of
         (Returns l, w2) \<Rightarrow> (Returns (), w2)
       | (Fails err, w2) \<Rightarrow> (Fails (WaitingForGroupMembership err), w2)
       | (Panics, w2) \<Rightarrow> (Panics, w2)))
   \<and> (GroupAddMember (WaitForListAdd client delay budget) client groupId member w
        = (Returns (), w3) \<longrightarrow>
        (\<exists>w' l. GroupAllMembers client groupId w' = (Returns l, w3) \<and> member \<in> set l))"
proof (intro conjI impI)
  assume "GroupAddMember_loop client groupId member (directoryObjectURL (TenantID client) member) 0 w
      = (Returns (), w1)"
  then show "GroupAddMember (WaitForListAdd client delay budget) client groupId member w =
      (case WaitForListAdd client delay budget member (GroupAllMembers client groupId) w1 of
         (Returns l, w2) \<Rightarrow> (Returns (), w2)
       | (Fails err, w2) \<Rightarrow> (Fails (WaitingForGroupMembership err), w2)
       | (Panics, w2) \<Rightarrow> (Panics, w2))"
    by (simp add: GroupAddMember_def split: prod.splits result.splits)
next
  assume ok: "GroupAddMember (WaitForListAdd client delay budget) client groupId member w
              = (Returns (), w3)"
  then obtain w1 l where
    "WaitForListAdd client delay budget member (GroupAllMembers client groupId) w1 = (Returns l, w3)"
    by (auto simp: GroupAddMember_def Let_def split: prod.splits result.splits)
  from WaitForListAdd_Returns [OF this]
  show "\<exists>w' l. GroupAllMembers client groupId w' = (Returns l, w3) \<and> member \<in> set l"
    by blast
qed

theorem GroupAddMember_waits_witness:
  "\<exists>w' l. GroupAllMembers directory ''g-1'' w' = (Returns l, after_u1) \<and> ''u-1'' \<in> set l"
  using GroupAddMember_waits [of directory "''g-1''" "''u-1''" start _ 5 3 after_u1] add_u1
  by blast

section \<open>Adding several members\<close>

lemma world_after_adding_Nil: "world_after_adding poll c g [] w = w"
  by (simp add: world_after_adding_def)

lemma world_after_adding_Cons:
  "world_after_adding poll c g (m # ms) w
   = world_after_adding poll c g ms (snd (GroupAddMember poll c g m w))"
  by (simp add: world_after_adding_def)

lemma GroupAddMembers_abort:
  assumes "i < length ms"
    and "\<forall>j<i. fst (GroupAddMember poll c g (ms ! j)
                   (world_after_adding poll c g (take j ms) w)) = Returns ()"
    and "GroupAddMember poll c g (ms ! i) (world_after_adding poll c g (take i ms) w)
         = (Fails e, w')"
  shows "GroupAddMembers poll c g ms w = (Fails (WhileAddingMembers g e), w')"
  using assms
proof (induction ms arbitrary: w i)
  case Nil
  then show ?case by simp
next
  case (Cons m ms)
  show ?case
  proof (cases i)
    case 0
    with Cons.prems show ?thesis
      by (simp add: world_after_adding_Nil)
  next
    case (Suc i')
    from Cons.prems(2) Suc have first: "fst (GroupAddMember poll c g m w) = Returns ()"
      by (auto simp: world_after_adding_Nil dest: spec [of _ 0])
    from first obtain w1 where step: "GroupAddMember poll c g m w = (Returns (), w1)"
      by (cases "GroupAddMember poll c g m w") simp
    have "\<forall>j<i'. fst (GroupAddMember poll c g (ms ! j)
                     (world_after_adding poll c g (take j ms) w1)) = Returns ()"
    proof (intro allI impI)
      fix j assume "j < i'"
      with Suc have "Suc j < i" by simp
      with Cons.prems(2)
      show "fst (GroupAddMember poll c g (ms ! j)
                  (world_after_adding poll c g (take j ms) w1)) = Returns ()"
        by (auto simp: world_after_adding_Cons step dest!: spec [of _ "Suc j"])
    qed
    moreover from Cons.prems(3) Suc
    have "GroupAddMember poll c g (ms ! i') (world_after_adding poll c g (take i' ms) w1)
          = (Fails e, w')"
      by (simp add: world_after_adding_Cons step)
    moreover from Cons.prems(1) Suc have "i' < length ms" by simp
    ultimately have "GroupAddMembers poll c g ms w1 = (Fails (WhileAddingMembers g e), w')"
      by (intro Cons.IH)
    with step show ?thesis by simp
  qed
qed

lemma GroupAddMembers_all:
  assumes "\<forall>j<length ms. fst (GroupAddMember poll c g (ms ! j)
                           (world_after_adding poll c g (take j ms) w)) = Returns ()"
  shows "GroupAddMembers poll c g ms w = (Returns (), world_after_adding poll c g ms w)"
  using assms
proof (induction ms arbitrary: w)
  case Nil
  then show ?case by (simp add: world_after_adding_Nil)
next
  case (Cons m ms)
  from Cons.prems have first: "fst (GroupAddMember poll c g m w) = Returns ()"
    by (auto simp: world_after_adding_Nil dest: spec [of _ 0])
  from first obtain w1 where step: "GroupAddMember poll c g m w = (Returns (), w1)"
    by (cases "GroupAddMember poll c g m w") simp
  have "\<forall>j<length ms. fst (GroupAddMember poll c g (ms ! j)
                          (world_after_adding poll c g (take j ms) w1)) = Returns ()"
  proof (intro allI impI)
    fix j assume "j < length ms"
    then have "Suc j < length (m # ms)" by simp
    with Cons.prems
    show "fst (GroupAddMember poll c g (ms ! j)
                (world_after_adding poll c g (take j ms) w1)) = Returns ()"
      by (auto simp: world_after_adding_Cons step dest!: spec [of _ "Suc j"])
  qed
  then have "GroupAddMembers poll c g ms w1 = (Returns (), world_after_adding poll c g ms w1)"
    by (rule Cons.IH)
  with step show ?case by (simp add: world_after_adding_Cons)
qed

text \<open>
  C9. \<open>GroupAddMembers\<close> runs \<open>GroupAddMember\<close> on the members one after the other, each
  in the world the one before left. If the members before position \<open>i\<close> succeed and the
  one at \<open>i\<close> fails with \<open>e\<close>, leaving the world \<open>w'\<close>, then \<open>GroupAddMembers\<close> returns the
  error that names the group and wraps \<open>e\<close>, in that same world \<open>w'\<close>: nothing is done for a
  later member and nothing is undone for an earlier one. If every member succeeds it
  returns nil, in the world after the last member.
\<close>

theorem GroupAddMembers_sequential:
  "(\<forall>i e w'. i < length members
       \<and> (\<forall>j<i. fst (GroupAddMember poll client groupId (members ! j)
                       (world_after_adding poll client groupId (take j members) w)) = Returns ())
       \<and> GroupAddMember poll client groupId (members ! i)
            (world_after_adding poll client groupId (take i members) w) = (Fails e, w')
     \<longrightarrow> GroupAddMembers poll client groupId members w
          = (Fails (WhileAddingMembers groupId e), w'))
   \<and> ((\<forall>j<length members. fst (GroupAddMember poll client groupId (members ! j)
                       (world_after_adding poll client groupId (take j members) w)) = Returns ())
     \<longrightarrow> GroupAddMembers poll client groupId members w
          = (Returns (), world_after_adding poll client groupId members w))"
  using GroupAddMembers_abort [of _ members poll client groupId w]
    GroupAddMembers_all [of members poll client groupId w]
  by blast

theorem GroupAddMembers_sequential_witness:
  "GroupAddMembers (WaitForListAdd directory 5 3) directory ''g-1'' [''u-1'', ''x-9'', ''p-1''] start
   = (Fails (WhileAddingMembers ''g-1'' (WaitingForGroupMembership (PollTimeout ''x-9''))), after_x9)
   \<and> GroupAddMembers (WaitForListAdd directory 5 3) directory ''g-1'' [''u-1''] start
   = (Returns (), after_u1)"
proof -
  let ?poll = "WaitForListAdd directory 5 3"
  let ?ms = "[''u-1'', ''x-9'', ''p-1'']"
  have pre: "\<forall>j<1. fst (GroupAddMember ?poll directory ''g-1'' (?ms ! j)
                       (world_after_adding ?poll directory ''g-1'' (take j ?ms) start)) = Returns ()"
    by (simp add: world_after_adding_def add_u1)
  have at: "GroupAddMember ?poll directory ''g-1'' (?ms ! 1)
              (world_after_adding ?poll directory ''g-1'' (take 1 ?ms) start)
            = (Fails (WaitingForGroupMembership (PollTimeout ''x-9'')), after_x9)"
    by (simp add: world_after_adding_def add_u1 add_x9)
  have one: "(1::nat) < length ?ms" by simp
  from GroupAddMembers_sequential [of ?ms ?poll directory "''g-1''" start] one pre at
  have abort: "GroupAddMembers ?poll directory ''g-1'' ?ms start
     = (Fails (WhileAddingMembers ''g-1'' (WaitingForGroupMembership (PollTimeout ''x-9''))),
        after_x9)"
    by blast
  have all: "\<forall>j<length [''u-1'']. fst (GroupAddMember ?poll directory ''g-1'' ([''u-1''] ! j)
                 (world_after_adding ?poll directory ''g-1'' (take j [''u-1'']) start)) = Returns ()"
    by (simp add: world_after_adding_def add_u1)
  from GroupAddMembers_sequential [of "[''u-1'']" ?poll directory "''g-1''" start] all
  have "GroupAddMembers ?poll directory ''g-1'' [''u-1''] start
        = (Returns (), world_after_adding ?poll directory ''g-1'' [''u-1''] start)"
    by blast
  then have ok: "GroupAddMembers ?poll directory ''g-1'' [''u-1''] start = (Returns (), after_u1)"
    by (simp add: world_after_adding_def add_u1)
  from abort ok show ?thesis by (rule conjI)
qed

end
